theory Spec2Isabelle
  imports Main
begin

section \<open>JavaScript values\<close>

text \<open>
  Strings are \<^typ>\<open>string\<close>: the UTF-8 bytes of a well-formed JavaScript string.
  A number is carried as the text ECMAScript's Number-to-string conversion gives it
  (\<open>''1.5''\<close>, \<open>''NaN''\<close>): the client never computes with the numbers of a
  document, it only renders them. An object is its list of own enumerable properties in
  property order; the keys of an object are distinct.
\<close>

datatype jsval =
    JUndefined
  | JNull
  | JBool bool
  | JNum string
  | JStr string
  | JArr "jsval list"
  | JObj "(string \<times> jsval) list"

type_synonym jsobject = "(string \<times> jsval) list"

text \<open>
  An instance of \<open>Error\<close> with its message; \<open>OtherError\<close> is an instance of
  any other subclass, with the name of the class.
\<close>

datatype js_error =
    Error string
  | TypeError string
  | OtherError string string

text \<open>Reading a property of an object: \<open>undefined\<close> when the key is absent.\<close>

definition get_prop :: "jsobject \<Rightarrow> string \<Rightarrow> jsval" where
  "get_prop ps k = (case map_of ps k of None \<Rightarrow> JUndefined | Some v \<Rightarrow> v)"

text \<open>
  Assigning a property (\<open>o.k = v\<close>, and a later key of an object literal after a
  spread): an existing key keeps its place, a new key goes last.
\<close>

fun set_prop :: "jsobject \<Rightarrow> string \<Rightarrow> jsval \<Rightarrow> jsobject" where
  "set_prop [] k v = [(k, v)]"
| "set_prop ((k', v') # ps) k v =
     (if k' = k then (k, v) # ps else (k', v') # set_prop ps k v)"

text \<open>
  Member access \<open>x.k\<close> on an arbitrary value, for the keys the client reads
  (\<open>locale\<close>, \<open>language\<close>, \<open>country\<close>): it throws on \<open>undefined\<close> and
  \<open>null\<close>; primitives and arrays have no property of these names.
\<close>

fun member :: "jsval \<Rightarrow> string \<Rightarrow> js_error + jsval" where
  "member JUndefined k = Inl (TypeError (''Cannot read properties of undefined (reading '' @ k @ '')''))"
| "member JNull k = Inl (TypeError (''Cannot read properties of null (reading '' @ k @ '')''))"
| "member (JObj ps) k = Inr (get_prop ps k)"
| "member v k = Inr JUndefined"

text \<open>The string conversion of template literals and of \<open>+\<close> with a string.\<close>

fun to_string :: "jsval \<Rightarrow> string"
  and array_join :: "jsval list \<Rightarrow> string"
  and join_element :: "jsval \<Rightarrow> string" where
  "to_string JUndefined = ''undefined''"
| "to_string JNull = ''null''"
| "to_string (JBool b) = (if b then ''true'' else ''false'')"
| "to_string (JNum t) = t"
| "to_string (JStr s) = s"
| "to_string (JArr xs) = array_join xs"
| "to_string (JObj ps) = ''[object Object]''"
| "array_join [] = []"
| "array_join [x] = join_element x"
| "array_join (x # y # ys) = join_element x @ '','' @ array_join (y # ys)"
| "join_element JUndefined = []"
| "join_element JNull = []"
| "join_element (JBool b) = (if b then ''true'' else ''false'')"
| "join_element (JNum t) = t"
| "join_element (JStr s) = s"
| "join_element (JArr xs) = array_join xs"
| "join_element (JObj ps) = ''[object Object]''"

text \<open>Truthiness of a value that is a string or \<open>undefined\<close>.\<close>

fun truthy :: "string option \<Rightarrow> bool" where
  "truthy None = False"
| "truthy (Some s) = (s \<noteq> [])"

section \<open>The testing client\<close>

datatype RequestMethodEnum = GET | POST | PUT | DELETE | PATCH

text \<open>
  \<open>contentMode\<close> is the runtime value of the \<open>FSXAContentMode\<close> member, as the
  template literal renders it; the enumeration itself is declared outside this module.
\<close>

record CaaSTestingClientData =
  caasURL :: string
  tenantID :: string
  apikey :: string
  projectID :: string
  contentMode :: string
  remoteProjectId :: "string option"

record CaasTestingClient =
  baseUrl :: string
  headers :: "(string \<times> string) list"
  projectId :: string
  client_contentMode :: string
  caasTestingClientData :: CaaSTestingClientData
  client_remoteProjectId :: "string option"
  remoteBaseUrl :: "string option"

definition constructor :: "CaaSTestingClientData \<Rightarrow> CaasTestingClient" where
  "constructor d =
     (let c = \<lparr> baseUrl = caasURL d @ ''/'' @ tenantID d @ ''/'' @ projectID d @ ''.'' @ contentMode d @ ''.content'',
                  headers = [(''Authorization'', ''Bearer '' @ apikey d),
                             (''Content-Type'', ''application/json'')],
                  projectId = projectID d,
                  client_contentMode = contentMode d,
                  caasTestingClientData = d,
                  client_remoteProjectId = None,
                  remoteBaseUrl = None \<rparr>
      in case remoteProjectId d of
           None \<Rightarrow> c
         | Some r \<Rightarrow>
             if truthy (Some r)
             then c \<lparr> client_remoteProjectId := Some r,
                      remoteBaseUrl := Some (caasURL d @ ''/'' @ tenantID d @ ''/'' @ r @ ''.'' @ contentMode d @ ''.content'') \<rparr>
             else c)"

text \<open>
  A call of \<open>fetch\<close>. The first argument is a string or \<open>undefined\<close>: the
  non-null assertion \<open>this.remoteBaseUrl!\<close> is erased at run time.
\<close>

record request =
  req_url :: "string option"
  req_method :: RequestMethodEnum
  req_headers :: "(string \<times> string) list"
  req_body :: "string option"

text \<open>
  What one operation of the client does: it returns \<open>undefined\<close> without a fetch,
  or it calls \<open>fetch\<close> once and returns the response, or it throws before any fetch.
\<close>

datatype outcome =
    Undefined
  | Fetch request
  | Throw js_error

fun set_header :: "(string \<times> string) list \<Rightarrow> string \<Rightarrow> string \<Rightarrow> (string \<times> string) list" where
  "set_header [] k v = [(k, v)]"
| "set_header ((k', v') # hs) k v =
     (if k' = k then (k, v) # hs else (k', v') # set_header hs k v)"

definition getCollection :: "CaasTestingClient \<Rightarrow> outcome" where
  "getCollection c =
     Fetch \<lparr> req_url = Some (baseUrl c), req_method = GET, req_headers = headers c, req_body = None \<rparr>"

definition getRemoteCollection :: "CaasTestingClient \<Rightarrow> outcome" where
  "getRemoteCollection c =
     Fetch \<lparr> req_url = remoteBaseUrl c, req_method = GET, req_headers = headers c, req_body = None \<rparr>"

definition getItem :: "CaasTestingClient \<Rightarrow> string \<Rightarrow> string \<Rightarrow> outcome" where
  "getItem c identifier locale =
     Fetch \<lparr> req_url = Some (baseUrl c @ ''/'' @ identifier @ ''.'' @ locale),
             req_method = GET, req_headers = headers c, req_body = None \<rparr>"

definition createCollection :: "CaasTestingClient \<Rightarrow> outcome" where
  "createCollection c =
     Fetch \<lparr> req_url = Some (baseUrl c), req_method = PUT, req_headers = headers c, req_body = None \<rparr>"

definition createRemoteCollection :: "CaasTestingClient \<Rightarrow> outcome" where
  "createRemoteCollection c =
     Fetch \<lparr> req_url = remoteBaseUrl c, req_method = PUT, req_headers = headers c, req_body = None \<rparr>"

definition removeCollection :: "CaasTestingClient \<Rightarrow> string \<Rightarrow> outcome" where
  "removeCollection c etag =
     Fetch \<lparr> req_url = Some (baseUrl c), req_method = DELETE,
             req_headers = set_header (headers c) ''If-Match'' etag, req_body = None \<rparr>"

definition removeRemoteCollection :: "CaasTestingClient \<Rightarrow> string \<Rightarrow> outcome" where
  "removeRemoteCollection c etag =
     (if truthy (remoteBaseUrl c)
      then Fetch \<lparr> req_url = remoteBaseUrl c, req_method = DELETE,
                   req_headers = set_header (headers c) ''If-Match'' etag, req_body = None \<rparr>
      else Undefined)"

definition removeItem :: "CaasTestingClient \<Rightarrow> string \<Rightarrow> string \<Rightarrow> string \<Rightarrow> outcome" where
  "removeItem c identifier locale etag =
     Fetch \<lparr> req_url = Some (baseUrl c @ ''/'' @ identifier @ ''.'' @ locale),
             req_method = DELETE,
             req_headers = set_header (headers c) ''If-Match'' etag, req_body = None \<rparr>"

section \<open>Percent-encoding and JSON serialisation\<close>

text \<open>
  \<open>encodeURIComponent\<close> on the UTF-8 bytes of a string: the unreserved characters
  (letters, digits and \<open>- _ . ! ~ * ' ( )\<close>) stay, every other byte becomes
  \<open>%XX\<close> with upper-case hexadecimal digits.
\<close>

definition uri_unreserved :: "char \<Rightarrow> bool" where
  "uri_unreserved c \<longleftrightarrow>
     c \<in> set (''ABCDEFGHIJKLMNOPQRSTUVWXYZabcdefghijklmnopqrstuvwxyz0123456789-_.!~*()'' @ [CHR 0x27])"

definition hex_upper :: "nat \<Rightarrow> char" where
  "hex_upper n = ''0123456789ABCDEF'' ! n"

definition hex_lower :: "nat \<Rightarrow> char" where
  "hex_lower n = ''0123456789abcdef'' ! n"

definition encode_byte :: "char \<Rightarrow> string" where
  "encode_byte c =
     (if uri_unreserved c then [c]
      else [CHR ''%'', hex_upper (of_char c div 16), hex_upper (of_char c mod 16)])"

definition encodeURIComponent :: "string \<Rightarrow> string" where
  "encodeURIComponent s = concat (map encode_byte s)"

text \<open>
  \<open>JSON.stringify\<close> without replacer or indentation. A property whose value is
  \<open>undefined\<close> is left out of an object; in an array it is written \<open>null\<close>;
  a number that is not finite is written \<open>null\<close>.
\<close>

definition QuoteJSONChar :: "char \<Rightarrow> string" where
  "QuoteJSONChar c =
     (let n = (of_char c :: nat) in
      if n = 8 then [CHR 0x5C, CHR ''b'']
      else if n = 9 then [CHR 0x5C, CHR ''t'']
      else if n = 10 then [CHR 0x5C, CHR ''n'']
      else if n = 12 then [CHR 0x5C, CHR ''f'']
      else if n = 13 then [CHR 0x5C, CHR ''r'']
      else if n = 34 then [CHR 0x5C, CHR 0x22]
      else if n = 92 then [CHR 0x5C, CHR 0x5C]
      else if n < 32 then [CHR 0x5C, CHR ''u'', CHR ''0'', CHR ''0'', hex_lower (n div 16), hex_lower (n mod 16)]
      else [c])"

definition QuoteJSONString :: "string \<Rightarrow> string" where
  "QuoteJSONString s = [CHR 0x22] @ concat (map QuoteJSONChar s) @ [CHR 0x22]"

fun comma_join :: "string list \<Rightarrow> string" where
  "comma_join [] = []"
| "comma_join [x] = x"
| "comma_join (x # y # ys) = x @ '','' @ comma_join (y # ys)"

fun SerializeJSONProperty :: "jsval \<Rightarrow> string option"
  and SerializeJSONArray :: "jsval list \<Rightarrow> string list"
  and SerializeJSONObject :: "(string \<times> jsval) list \<Rightarrow> string list" where
  "SerializeJSONProperty JUndefined = None"
| "SerializeJSONProperty JNull = Some ''null''"
| "SerializeJSONProperty (JBool b) = Some (if b then ''true'' else ''false'')"
| "SerializeJSONProperty (JNum t) =
     Some (if t = ''NaN'' \<or> t = ''Infinity'' \<or> t = ''-Infinity'' then ''null'' else t)"
| "SerializeJSONProperty (JStr s) = Some (QuoteJSONString s)"
| "SerializeJSONProperty (JArr xs) = Some (''['' @ comma_join (SerializeJSONArray xs) @ '']'')"
| "SerializeJSONProperty (JObj ps) = Some (''{'' @ comma_join (SerializeJSONObject ps) @ ''}'')"
| "SerializeJSONArray [] = []"
| "SerializeJSONArray (x # xs) =
     (case SerializeJSONProperty x of None \<Rightarrow> ''null'' | Some t \<Rightarrow> t) # SerializeJSONArray xs"
| "SerializeJSONObject [] = []"
| "SerializeJSONObject ((k, v) # ps) =
     (case SerializeJSONProperty v of
        None \<Rightarrow> SerializeJSONObject ps
      | Some t \<Rightarrow> (QuoteJSONString k @ '':'' @ t) # SerializeJSONObject ps)"

text \<open>The request body \<open>JSON.stringify(x) || null\<close>; \<open>None\<close> is \<open>null\<close>.\<close>

definition json_body :: "jsval \<Rightarrow> string option" where
  "json_body x =
     (case SerializeJSONProperty x of
        None \<Rightarrow> None
      | Some t \<Rightarrow> if t = [] then None else Some t)"

section \<open>Writing documents\<close>

definition addDocToCollection :: "CaasTestingClient \<Rightarrow> jsobject \<Rightarrow> outcome" where
  "addDocToCollection c doc =
     (case member (get_prop doc ''locale'') ''language'' of
        Inl e \<Rightarrow> Throw e
      | Inr language \<Rightarrow>
     (case member (get_prop doc ''locale'') ''country'' of
        Inl e \<Rightarrow> Throw e
      | Inr country \<Rightarrow>
          let encodedLocale = encodeURIComponent (to_string language @ ''_'' @ to_string country);
              encodedId = encodeURIComponent (to_string (get_prop doc ''_id''));
              url = baseUrl c @ ''/'' @ encodedId @ ''.'' @ encodedLocale;
              docWithLocale = set_prop doc ''_id'' JUndefined
          in Fetch \<lparr> req_url = Some url, req_method = PUT, req_headers = headers c,
                       req_body = json_body (JObj docWithLocale) \<rparr>))"

text \<open>The callback of \<open>docs.map\<close> in \<open>addDocsToCollection\<close>.\<close>

definition docWithLocale_of_doc :: "jsobject \<Rightarrow> js_error + jsobject" where
  "docWithLocale_of_doc doc =
     (case member (get_prop doc ''locale'') ''language'' of
        Inl e \<Rightarrow> Inl e
      | Inr language \<Rightarrow>
     (case member (get_prop doc ''locale'') ''country'' of
        Inl e \<Rightarrow> Inl e
      | Inr country \<Rightarrow>
          Inr (set_prop doc ''_id''
                 (JStr (to_string (get_prop doc ''_id'') @ ''.'' @ to_string language @ ''_'' @ to_string country)))))"

text \<open>\<open>Array.prototype.map\<close> with a callback that may throw: the first throw ends it.\<close>

fun map_docs :: "(jsobject \<Rightarrow> js_error + jsobject) \<Rightarrow> jsobject list \<Rightarrow> js_error + jsobject list" where
  "map_docs f [] = Inr []"
| "map_docs f (d # ds) =
     (case f d of
        Inl e \<Rightarrow> Inl e
      | Inr d' \<Rightarrow> (case map_docs f ds of Inl e \<Rightarrow> Inl e | Inr ds' \<Rightarrow> Inr (d' # ds')))"

definition addDocsToCollection :: "CaasTestingClient \<Rightarrow> jsobject list \<Rightarrow> outcome" where
  "addDocsToCollection c docs =
     (case map_docs docWithLocale_of_doc docs of
        Inl e \<Rightarrow> Throw e
      | Inr docsWithLocale \<Rightarrow>
          Fetch \<lparr> req_url = Some (baseUrl c), req_method = POST, req_headers = headers c,
                  req_body = json_body (JArr (map JObj docsWithLocale)) \<rparr>)"

text \<open>The callback of \<open>docs.map\<close> in \<open>addItemsToCollectionWithBaseUrl\<close>.\<close>

definition docWithLocale_of_item :: "jsobject \<Rightarrow> jsobject \<Rightarrow> jsobject" where
  "docWithLocale_of_item locale doc =
     set_prop (set_prop doc ''locale'' (JObj locale)) ''_id''
       (JStr (to_string (get_prop doc ''identifier'') @ ''.'' @
              to_string (get_prop locale ''language'') @ ''_'' @ to_string (get_prop locale ''country'')))"

definition addItemsToCollectionWithBaseUrl ::
  "CaasTestingClient \<Rightarrow> jsobject list \<Rightarrow> jsobject \<Rightarrow> string \<Rightarrow> outcome" where
  "addItemsToCollectionWithBaseUrl c docs locale url =
     (let docsWithLocale = map (docWithLocale_of_item locale) docs
      in Fetch \<lparr> req_url = Some url, req_method = POST, req_headers = headers c,
                   req_body = json_body (JArr (map JObj docsWithLocale)) \<rparr>)"

definition addItemsToCollection :: "CaasTestingClient \<Rightarrow> jsobject list \<Rightarrow> jsobject \<Rightarrow> outcome" where
  "addItemsToCollection c docs locale = addItemsToCollectionWithBaseUrl c docs locale (baseUrl c)"

definition addItemsToRemoteCollection :: "CaasTestingClient \<Rightarrow> jsobject list \<Rightarrow> jsobject \<Rightarrow> outcome" where
  "addItemsToRemoteCollection c docs locale =
     (case remoteBaseUrl c of
        None \<Rightarrow> Undefined
      | Some r \<Rightarrow>
          if truthy (Some r) then addItemsToCollectionWithBaseUrl c docs locale r else Undefined)"

section \<open>Retrying and polling\<close>

text \<open>
  Anything can be thrown: an instance of \<open>Error\<close>, or a value that is none.
\<close>

datatype thrown =
    ThrownError js_error
  | ThrownValue jsval

text \<open>\<open>error instanceof Error ? error : new Error(String(error))\<close>\<close>

fun as_error :: "thrown \<Rightarrow> js_error" where
  "as_error (ThrownError e) = e"
| "as_error (ThrownValue v) = Error (to_string v)"

text \<open>
  Numbers of the options are integers here. The callback \<open>onRetry\<close> returns
  \<open>None\<close> when it returns, \<open>Some t\<close> when it throws \<open>t\<close>.
\<close>

record RetryOptions =
  maxRetries :: "int option"
  delayMs :: "int option"
  backoffMultiplier :: "int option"
  onRetry :: "(js_error \<Rightarrow> nat \<Rightarrow> thrown option) option"

text \<open>\<open>onRetry?.(lastError, attempt)\<close>: nothing happens without a callback.\<close>

definition call_onRetry ::
  "(js_error \<Rightarrow> nat \<Rightarrow> thrown option) option \<Rightarrow> js_error \<Rightarrow> nat \<Rightarrow> thrown option" where
  "call_onRetry cb e k = (case cb of None \<Rightarrow> None | Some f \<Rightarrow> f e k)"

datatype retry_event =
    Invoked nat
  | OnRetry js_error nat
  | Delayed int

text \<open>
  The async function \<open>fn\<close> is given by what its invocations do, in order:
  \<open>fn k\<close> is the settled result of the \<open>k\<close>-th invocation, counted from 1
  as \<open>attempt\<close> is. The loop returns what \<open>retryAsync\<close> returns or throws,
  with the trace of what it did from this attempt on.
\<close>

function retry_loop ::
  "(nat \<Rightarrow> thrown + 'a) \<Rightarrow> int \<Rightarrow> int \<Rightarrow> (js_error \<Rightarrow> nat \<Rightarrow> thrown option) option \<Rightarrow>
   js_error \<Rightarrow> int \<Rightarrow> nat \<Rightarrow> (thrown + 'a) \<times> retry_event list" where
  "retry_loop fn maxR backoff cb lastError currentDelay attempt =
     (if int attempt \<le> maxR then
        (case fn attempt of
           Inr v \<Rightarrow> (Inr v, [Invoked attempt])
         | Inl error \<Rightarrow>
             let lastError' = as_error error in
             if int attempt < maxR then
               (case call_onRetry cb lastError' attempt of
                  Some t \<Rightarrow>
                    (Inl t, [Invoked attempt, OnRetry lastError' attempt])
                | None \<Rightarrow>
                    let (r, tr) = retry_loop fn maxR backoff cb lastError' (currentDelay * backoff) (attempt + 1)
                    in (r, Invoked attempt
                           # (case cb of None \<Rightarrow> [] | Some f \<Rightarrow> [OnRetry lastError' attempt])
                           @ Delayed currentDelay # tr))
             else
               let (r, tr) = retry_loop fn maxR backoff cb lastError' currentDelay (attempt + 1)
               in (r, Invoked attempt # tr))
      else (Inl (ThrownError lastError), []))"
  by pat_completeness auto
termination
  by (relation "measure (\<lambda>(fn, maxR, backoff, cb, lastError, currentDelay, attempt). nat (maxR + 1 - int attempt))") auto

declare retry_loop.simps [simp del]

definition retryAsync ::
  "(nat \<Rightarrow> thrown + 'a) \<Rightarrow> RetryOptions \<Rightarrow> (thrown + 'a) \<times> retry_event list" where
  "retryAsync fn options =
     (let maxR = (case maxRetries options of None \<Rightarrow> 3 | Some n \<Rightarrow> n);
          delay = (case delayMs options of None \<Rightarrow> 1000 | Some n \<Rightarrow> n);
          backoff = (case backoffMultiplier options of None \<Rightarrow> 2 | Some n \<Rightarrow> n)
      in retry_loop fn maxR backoff (onRetry options) (Error ''No attempts made'') delay 1)"

text \<open>The invocations of \<open>fn\<close> in a trace.\<close>

fun invocations :: "retry_event list \<Rightarrow> nat list" where
  "invocations [] = []"
| "invocations (Invoked k # tr) = k # invocations tr"
| "invocations (_ # tr) = invocations tr"

text \<open>
  The decimal digits of an integer: what the conversion of a number to a string gives
  for an integer of magnitude below \<open>10\<^sup>2\<^sup>1\<close>. It serves to run the model on
  examples; the model itself takes the conversion as a parameter.
\<close>

function show_nat :: "nat \<Rightarrow> string" where
  "show_nat n =
     (if n < 10 then [''0123456789'' ! n]
      else show_nat (n div 10) @ [''0123456789'' ! (n mod 10)])"
  by pat_completeness auto
termination
  by (relation "measure id") auto

declare show_nat.simps [simp del]

definition decimal :: "int \<Rightarrow> string" where
  "decimal i = (if i < 0 then ''-'' @ show_nat (nat (- i)) else show_nat (nat i))"

text \<open>
  One call of the condition settles with a value, of which only the truthiness matters,
  or throws.
\<close>

datatype condition_result =
    Returns bool
  | Throws

record WaitOptions =
  timeoutMs :: "int option"
  pollIntervalMs :: "int option"
  errorMessage :: "string option"

text \<open>
  What the loop does: \<open>Checked i s\<close> is the call of the condition in round
  \<open>i\<close>, which settled when \<open>s\<close> milliseconds had elapsed since the start;
  \<open>Waited p\<close> is the delay of \<open>p\<close> milliseconds.
\<close>

datatype wait_event =
    Checked nat nat
  | Waited int

text \<open>
  Time enters through the clock. \<open>elapsed i\<close> is \<open>Date.now() - startTime\<close>
  when the loop condition is evaluated for the \<open>i\<close>-th time, counted from 0; it is a
  natural number, the clock does not run backwards. \<open>condition i\<close> is what the call
  of the condition in that round does, and \<open>settled i\<close> is the time elapsed since
  the start when that call settles: the loop does not read the clock then, the time is
  only recorded in the trace. \<open>number_text\<close> is the conversion of a number to a
  string in the template literal. The loop runs for as long as the readings stay below
  the timeout and no call is truthy, so it is a partial function: \<open>None\<close> is a run
  that never ends.
\<close>

partial_function (option) wait_loop ::
  "(int \<Rightarrow> string) \<Rightarrow> (nat \<Rightarrow> condition_result) \<Rightarrow> (nat \<Rightarrow> nat) \<Rightarrow> (nat \<Rightarrow> nat) \<Rightarrow>
   int \<Rightarrow> int \<Rightarrow> string \<Rightarrow> nat \<Rightarrow> wait_event list \<Rightarrow>
   ((js_error + bool) \<times> wait_event list) option" where
  "wait_loop number_text condition elapsed settled timeout pollInterval message i trace =
     (if int (elapsed i) < timeout then
        (case condition i of
           Returns result \<Rightarrow>
             if result then Some (Inr True, trace @ [Checked i (settled i)])
             else wait_loop number_text condition elapsed settled timeout pollInterval message (i + 1)
                    (trace @ [Checked i (settled i), Waited pollInterval])
         | Throws \<Rightarrow>
             wait_loop number_text condition elapsed settled timeout pollInterval message (i + 1)
               (trace @ [Checked i (settled i), Waited pollInterval]))
      else Some (Inl (Error (message @ '' (waited '' @ number_text timeout @ ''ms)'')), trace))"

declare wait_loop.simps [code]

definition waitUntilPreconditionMet ::
  "(int \<Rightarrow> string) \<Rightarrow> (nat \<Rightarrow> condition_result) \<Rightarrow> (nat \<Rightarrow> nat) \<Rightarrow> (nat \<Rightarrow> nat) \<Rightarrow> WaitOptions \<Rightarrow>
   ((js_error + bool) \<times> wait_event list) option" where
  "waitUntilPreconditionMet number_text condition elapsed settled options =
     (let timeout = (case timeoutMs options of None \<Rightarrow> 10000 | Some n \<Rightarrow> n);
          pollInterval = (case pollIntervalMs options of None \<Rightarrow> 500 | Some n \<Rightarrow> n);
          message = (case errorMessage options of None \<Rightarrow> ''Condition not met within timeout'' | Some m \<Rightarrow> m)
      in wait_loop number_text condition elapsed settled timeout pollInterval message 0 [])"

text \<open>The rounds in which the condition was called, from a trace.\<close>

fun checks :: "wait_event list \<Rightarrow> nat list" where
  "checks [] = []"
| "checks (Checked i s # tr) = i # checks tr"
| "checks (_ # tr) = checks tr"

section \<open>The query translator\<close>

text \<open>
  Modelled from the spec: the operator enumerations of the Query Operator Model
  (section 4.1). The module that declares them is re-exported by the index file and is
  not among the sources. Of the array operators the spec names three.
\<close>

datatype ComparisonQueryOperatorEnum =
  Equals | NotEquals | GreaterThan | GreaterOrEqual | LessThan | LessOrEqual

datatype ArrayQueryOperatorEnum =
  ContainsElement | ElementMatches | SizeEquals

datatype LogicalQueryOperatorEnum =
  LogicalAnd | LogicalOr | LogicalNot

text \<open>
  Modelled from the spec: the operator a Comparison or Array node is built with may
  come from any of the three sets (a node with an operator outside its own set is what
  \<open>InvalidOperator\<close> is for).
\<close>

datatype operator =
    ComparisonOperator ComparisonQueryOperatorEnum
  | ArrayOperator ArrayQueryOperatorEnum
  | LogicalOperator LogicalQueryOperatorEnum

text \<open>
  Modelled from the spec: the FilterExpression of section 3, a tagged variant of
  Comparison(field, operator, value), Array(field, operator, list of values) and
  Logical(operator, list of sub-expressions). A value is a scalar in its text.
\<close>

datatype FilterExpression =
    Comparison string operator string
  | Array string operator "string list"
  | Logical LogicalQueryOperatorEnum "FilterExpression list"

text \<open>Modelled from the spec: the query-translation errors of section 7.\<close>

datatype QueryBuilderErrors =
  InvalidOperator | InvalidArity | MissingField | MissingValue

text \<open>
  Modelled from the spec: the native filter document of section 4.2. A leaf is a single
  operator object keyed by the field name; a composite is keyed by the logical operator
  and holds the translated children as a list.
\<close>

datatype native_operand =
    Single string
  | Multiple "string list"

datatype native_filter =
    Keyed string operator native_operand
  | Composite LogicalQueryOperatorEnum "native_filter list"

text \<open>
  Modelled from the spec: \<open>translateFilter\<close> (section 4.2), by recursive descent.
  A Comparison or Array node with an operator outside its set fails with
  \<open>InvalidOperator\<close>, an empty field name with \<open>MissingField\<close>, an empty value
  (for an Array node, an empty list of values) with \<open>MissingValue\<close>, a Logical
  \<open>not\<close> with more than one sub-expression with \<open>InvalidArity\<close>. The children
  of a Logical node are translated from left to right and the first error is the result:
  there is no partial filter.
\<close>

fun translateFilter :: "FilterExpression \<Rightarrow> QueryBuilderErrors + native_filter"
  and translateChildren :: "FilterExpression list \<Rightarrow> QueryBuilderErrors + native_filter list" where
  "translateFilter (Comparison field operator v) =
     (case operator of
        ComparisonOperator _ \<Rightarrow>
          if field = [] then Inl MissingField
          else if v = [] then Inl MissingValue
          else Inr (Keyed field operator (Single v))
      | _ \<Rightarrow> Inl InvalidOperator)"
| "translateFilter (Array field operator vs) =
     (case operator of
        ArrayOperator _ \<Rightarrow>
          if field = [] then Inl MissingField
          else if vs = [] then Inl MissingValue
          else Inr (Keyed field operator (Multiple vs))
      | _ \<Rightarrow> Inl InvalidOperator)"
| "translateFilter (Logical operator children) =
     (if operator = LogicalNot \<and> 1 < length children then Inl InvalidArity
      else case translateChildren children of
             Inl e \<Rightarrow> Inl e
           | Inr translated \<Rightarrow> Inr (Composite operator translated))"
| "translateChildren [] = Inr []"
| "translateChildren (child # children) =
     (case translateFilter child of
        Inl e \<Rightarrow> Inl e
      | Inr n \<Rightarrow>
          (case translateChildren children of
             Inl e \<Rightarrow> Inl e
           | Inr ns \<Rightarrow> Inr (n # ns)))"

text \<open>
  Modelled from the spec: a well-formed FilterExpression. The invariants of section 3
  (a Logical node has at least one sub-expression, the operator of a Comparison or Array
  node is of its own set) together with what sections 4.1 and 4.2 make an error.
\<close>

fun well_formed :: "FilterExpression \<Rightarrow> bool" where
  "well_formed (Comparison field operator v) =
     ((case operator of ComparisonOperator _ \<Rightarrow> True | _ \<Rightarrow> False) \<and> field \<noteq> [] \<and> v \<noteq> [])"
| "well_formed (Array field operator vs) =
     ((case operator of ArrayOperator _ \<Rightarrow> True | _ \<Rightarrow> False) \<and> field \<noteq> [] \<and> vs \<noteq> [])"
| "well_formed (Logical operator children) =
     (children \<noteq> [] \<and> \<not> (operator = LogicalNot \<and> 1 < length children) \<and>
      list_all well_formed children)"

section \<open>The reference resolver and the content mapper\<close>

text \<open>
  Modelled from the spec: the data model of section 3, as far as the resolution of
  references reads it. The mapper module is re-exported by the index file and is not
  among the sources. A raw field value is a scalar, a reference, a nested structure or
  a list; a reference names an identifier and says whether it targets the remote project.
\<close>

datatype ItemKind = Page | Section | Dataset | Media | RichText | DataEntry





text \<open>Modelled from the spec: the mapping and resolution errors of section 7.\<close>

datatype MappingErrorKind =
    RequiredFieldMissing | UnknownItemKind | MalformedRawItem
  | ReferenceNotFound | DepthExceeded | RemoteNotConfigured | TransportFailure

text \<open>
  Modelled from the spec: the MappedItem of section 3. A resolved reference is the
  mapped item itself, owned by its parent; an unresolved one is a marker with the
  identifier and the kind of the failure.
\<close>

datatype MappedValue =
    MappedScalar string
  | Resolved MappedItem
  | UnresolvedMarker string MappingErrorKind
  | MappedNested "(string \<times> MappedValue) list"
  | MappedList "MappedValue list"
and MappedItem =
  MappedItem (mapped_identifier: string) (mapped_kind: ItemKind)
    (mapped_fields: "(string \<times> MappedValue) list")




record ResolutionMemo =
  resolved :: "(string \<times> MappedItem) list"
  fetches :: "(string \<times> string) list"






text \<open>
  The identifiers of the resolved items inside a mapped value, and the property that
  no resolved item has an item of its own identifier below it.
\<close>

fun value_items :: "MappedValue \<Rightarrow> string set"
  and item_items :: "MappedItem \<Rightarrow> string set"
  and values_items :: "MappedValue list \<Rightarrow> string set"
  and fields_items :: "(string \<times> MappedValue) list \<Rightarrow> string set" where
  "value_items (MappedScalar s) = {}"
| "value_items (Resolved m) = item_items m"
| "value_items (UnresolvedMarker i k) = {}"
| "value_items (MappedNested fs) = fields_items fs"
| "value_items (MappedList vs) = values_items vs"
| "item_items (MappedItem i k fs) = insert i (fields_items fs)"
| "values_items [] = {}"
| "values_items (v # vs) = value_items v \<union> values_items vs"
| "fields_items [] = {}"
| "fields_items ((name, v) # fs) = value_items v \<union> fields_items fs"

fun acyclic_value :: "MappedValue \<Rightarrow> bool"
  and acyclic_item :: "MappedItem \<Rightarrow> bool"
  and acyclic_values :: "MappedValue list \<Rightarrow> bool"
  and acyclic_fields :: "(string \<times> MappedValue) list \<Rightarrow> bool" where
  "acyclic_value (MappedScalar s) = True"
| "acyclic_value (Resolved m) = acyclic_item m"
| "acyclic_value (UnresolvedMarker i k) = True"
| "acyclic_value (MappedNested fs) = acyclic_fields fs"
| "acyclic_value (MappedList vs) = acyclic_values vs"
| "acyclic_item (MappedItem i k fs) = (i \<notin> fields_items fs \<and> acyclic_fields fs)"
| "acyclic_values [] = True"
| "acyclic_values (v # vs) = (acyclic_value v \<and> acyclic_values vs)"
| "acyclic_fields [] = True"
| "acyclic_fields ((name, v) # fs) = (acyclic_value v \<and> acyclic_fields fs)"


text \<open>
  The invariant of the memo: an item is memoized under its identifier, it has no item
  of its own identifier below it, and every item inside it is memoized too.
\<close>

definition resolved_keys :: "ResolutionMemo \<Rightarrow> string set" where
  "resolved_keys memo = fst ` set (resolved memo)"

definition memo_ok :: "ResolutionMemo \<Rightarrow> bool" where
  "memo_ok memo \<longleftrightarrow>
     (\<forall>(k, m) \<in> set (resolved memo).
        mapped_identifier m = k \<and> acyclic_item m \<and> item_items m \<subseteq> resolved_keys memo)"


section \<open>Properties of the encoders and of property updates\<close>



lemma encodeURIComponent_append:
  "encodeURIComponent (a @ b) = encodeURIComponent a @ encodeURIComponent b"
  by (simp add: encodeURIComponent_def)

lemma encodeURIComponent_Cons:
  "encodeURIComponent (c # s) = encode_byte c @ encodeURIComponent s"
  by (simp add: encodeURIComponent_def)

lemma encode_byte_dot: "encode_byte CHR ''.'' = ''.''"
  by (simp add: encode_byte_def uri_unreserved_def)

lemma encode_byte_underscore: "encode_byte CHR ''_'' = ''_''"
  by (simp add: encode_byte_def uri_unreserved_def)

lemma encodeURIComponent_key:
  "encodeURIComponent i @ ''.'' @ encodeURIComponent (lang @ ''_'' @ co)
     = encodeURIComponent (i @ ''.'' @ lang @ ''_'' @ co)"
  by (simp add: encodeURIComponent_append encodeURIComponent_Cons encode_byte_dot encode_byte_underscore)


lemma get_prop_set_prop_same: "get_prop (set_prop ps k v) k = v"
  by (induction ps) (auto simp: get_prop_def)

lemma get_prop_set_prop_other: "k' \<noteq> k \<Longrightarrow> get_prop (set_prop ps k v) k' = get_prop ps k'"
  by (induction ps) (auto simp: get_prop_def)

lemma set_prop_idem: "map_of ps k = Some v \<Longrightarrow> set_prop ps k v = ps"
  by (induction ps) (auto split: if_splits)

lemma get_prop_JObj: "get_prop ps k = JObj l \<Longrightarrow> map_of ps k = Some (JObj l)"
  by (auto simp: get_prop_def split: option.splits)





lemma docWithLocale_of_doc_typed:
  assumes "get_prop d ''_id'' = JStr i" "get_prop d ''locale'' = JObj l"
    "get_prop l ''language'' = JStr lang" "get_prop l ''country'' = JStr co"
  shows "docWithLocale_of_doc d = Inr (set_prop d ''_id'' (JStr (i @ ''.'' @ lang @ ''_'' @ co)))"
  using assms by (simp add: docWithLocale_of_doc_def)

lemma map_docs_keys:
  assumes "list_all2 (\<lambda>d (i, lang, co). get_prop d ''_id'' = JStr i \<and>
             (\<exists>l. get_prop d ''locale'' = JObj l \<and> get_prop l ''language'' = JStr lang \<and>
                  get_prop l ''country'' = JStr co)) docs keys"
  shows "\<exists>ds. map_docs docWithLocale_of_doc docs = Inr ds \<and>
           map (\<lambda>d. get_prop d ''_id'') ds = map (\<lambda>(i, lang, co). JStr (i @ ''.'' @ lang @ ''_'' @ co)) keys"
  using assms
proof (induction rule: list_all2_induct)
  case Nil
  then show ?case by simp
next
  case (Cons d docs k keys)
  obtain i lang co where k: "k = (i, lang, co)" by (cases k)
  from Cons.hyps(1) k obtain l where
    d: "get_prop d ''_id'' = JStr i" "get_prop d ''locale'' = JObj l"
       "get_prop l ''language'' = JStr lang" "get_prop l ''country'' = JStr co"
    by auto
  from Cons.IH obtain ds where ds: "map_docs docWithLocale_of_doc docs = Inr ds"
    "map (\<lambda>d. get_prop d ''_id'') ds = map (\<lambda>(i, lang, co). JStr (i @ ''.'' @ lang @ ''_'' @ co)) keys"
    by blast
  show ?case
    using ds k by (simp add: docWithLocale_of_doc_typed [OF d] get_prop_set_prop_same)
qed

lemma items_keys:
  assumes "list_all2 (\<lambda>d i. get_prop d ''identifier'' = JStr i) items ids"
    "get_prop locale ''language'' = JStr lang" "get_prop locale ''country'' = JStr co"
  shows "map (\<lambda>d. get_prop d ''_id'') (map (docWithLocale_of_item locale) items)
           = map (\<lambda>i. JStr (i @ ''.'' @ lang @ ''_'' @ co)) ids"
  using assms(1)
  by (induction rule: list_all2_induct)
     (simp_all add: docWithLocale_of_item_def get_prop_set_prop_same assms(2,3))

lemma map_docs_same:
  assumes "\<forall>d\<in>set docs. get_prop d ''_id'' = get_prop d ''identifier'' \<and> get_prop d ''locale'' = JObj locale"
  shows "map_docs docWithLocale_of_doc docs = Inr (map (docWithLocale_of_item locale) docs)"
  using assms
proof (induction docs)
  case Nil
  then show ?case by simp
next
  case (Cons d docs)
  then have d: "get_prop d ''_id'' = get_prop d ''identifier''" "get_prop d ''locale'' = JObj locale"
    by simp_all
  have "set_prop d ''locale'' (JObj locale) = d"
    using d(2) by (intro set_prop_idem get_prop_JObj)
  then have "docWithLocale_of_doc d = Inr (docWithLocale_of_item locale d)"
    using d by (simp add: docWithLocale_of_doc_def docWithLocale_of_item_def)
  with Cons show ?case by simp
qed




section \<open>Properties of the retry loop and of the polling loop\<close>

lemma invocations_append: "invocations (xs @ ys) = invocations xs @ invocations ys"
  by (induction xs rule: invocations.induct) simp_all

lemma invocations_callback:
  "invocations (case cb of None \<Rightarrow> [] | Some f \<Rightarrow> [OnRetry e k]) = []"
  by (cases cb) simp_all

lemma retry_loop_done:
  "maxR < int attempt \<Longrightarrow>
   retry_loop fn maxR backoff cb lastError d attempt = (Inl (ThrownError lastError), [])"
  by (subst retry_loop.simps) simp

lemma retry_loop_returns:
  "int attempt \<le> maxR \<Longrightarrow> fn attempt = Inr v \<Longrightarrow>
   retry_loop fn maxR backoff cb lastError d attempt = (Inr v, [Invoked attempt])"
  by (subst retry_loop.simps) simp

lemma retry_loop_last:
  "int attempt = maxR \<Longrightarrow> fn attempt = Inl e \<Longrightarrow>
   retry_loop fn maxR backoff cb lastError d attempt = (Inl (ThrownError (as_error e)), [Invoked attempt])"
  by (subst retry_loop.simps) (simp add: retry_loop_done Let_def)

lemma retry_loop_again:
  "int attempt < maxR \<Longrightarrow> fn attempt = Inl e \<Longrightarrow> \<forall>e k. call_onRetry cb e k = None \<Longrightarrow>
   retry_loop fn maxR backoff cb lastError d attempt =
     (fst (retry_loop fn maxR backoff cb (as_error e) (d * backoff) (attempt + 1)),
      Invoked attempt # (case cb of None \<Rightarrow> [] | Some f \<Rightarrow> [OnRetry (as_error e) attempt])
        @ Delayed d # snd (retry_loop fn maxR backoff cb (as_error e) (d * backoff) (attempt + 1)))"
  by (subst retry_loop.simps) (simp add: Let_def split: prod.splits)

lemma retry_loop_first_success:
  assumes "\<forall>e k. call_onRetry cb e k = None" "fn k = Inr v" "int k \<le> maxR"
    and "\<forall>j. attempt \<le> j \<and> j < k \<longrightarrow> (\<exists>e. fn j = Inl e)" "attempt \<le> k"
  shows "fst (retry_loop fn maxR backoff cb lastError d attempt) = Inr v \<and>
         invocations (snd (retry_loop fn maxR backoff cb lastError d attempt)) = [attempt..<k + 1]"
  using assms(4,5)
proof (induction "k - attempt" arbitrary: attempt lastError d)
  case 0
  then have "attempt = k" by simp
  with assms(2,3) show ?case by (simp add: retry_loop_returns)
next
  case (Suc m)
  then have lt: "attempt < k" by simp
  with Suc.prems obtain e where e: "fn attempt = Inl e" by blast
  have m: "m = k - (attempt + 1)" using Suc.hyps(2) by simp
  have rest: "\<forall>j. attempt + 1 \<le> j \<and> j < k \<longrightarrow> (\<exists>e. fn j = Inl e)" using Suc.prems by simp
  have le: "attempt + 1 \<le> k" using lt by simp
  note IH = Suc.hyps(1) [OF m rest le, of "as_error e" "d * backoff"]
  have "int attempt < maxR" using lt assms(3) by simp
  then have step: "retry_loop fn maxR backoff cb lastError d attempt =
     (fst (retry_loop fn maxR backoff cb (as_error e) (d * backoff) (attempt + 1)),
      Invoked attempt # (case cb of None \<Rightarrow> [] | Some f \<Rightarrow> [OnRetry (as_error e) attempt])
        @ Delayed d # snd (retry_loop fn maxR backoff cb (as_error e) (d * backoff) (attempt + 1)))"
    using e assms(1) by (rule retry_loop_again)
  show ?case
    using IH lt
    by (simp add: step invocations_append invocations_callback upt_conv_Cons)
qed

lemma retry_loop_all_throw:
  assumes "\<forall>e k. call_onRetry cb e k = None" "fn (nat maxR) = Inl e"
    and "\<forall>j. attempt \<le> j \<and> int j \<le> maxR \<longrightarrow> (\<exists>e. fn j = Inl e)" "int attempt \<le> maxR"
  shows "fst (retry_loop fn maxR backoff cb lastError d attempt) = Inl (ThrownError (as_error e)) \<and>
         invocations (snd (retry_loop fn maxR backoff cb lastError d attempt)) = [attempt..<nat maxR + 1]"
  using assms(3,4)
proof (induction "nat maxR - attempt" arbitrary: attempt lastError d)
  case 0
  then have "int attempt = maxR" by simp
  moreover from this have "nat maxR = attempt" by simp
  ultimately show ?case using assms(2) by (simp add: retry_loop_last)
next
  case (Suc m)
  then have lt: "int attempt < maxR" by simp
  with Suc.prems obtain e' where e': "fn attempt = Inl e'" by force
  have m: "m = nat maxR - (attempt + 1)" using Suc.hyps(2) by simp
  have rest: "\<forall>j. attempt + 1 \<le> j \<and> int j \<le> maxR \<longrightarrow> (\<exists>e. fn j = Inl e)" using Suc.prems by simp
  have le: "int (attempt + 1) \<le> maxR" using lt by simp
  note IH = Suc.hyps(1) [OF m rest le, of "as_error e'" "d * backoff"]
  have step: "retry_loop fn maxR backoff cb lastError d attempt =
     (fst (retry_loop fn maxR backoff cb (as_error e') (d * backoff) (attempt + 1)),
      Invoked attempt # (case cb of None \<Rightarrow> [] | Some f \<Rightarrow> [OnRetry (as_error e') attempt])
        @ Delayed d # snd (retry_loop fn maxR backoff cb (as_error e') (d * backoff) (attempt + 1)))"
    using lt e' assms(1) by (rule retry_loop_again)
  have "attempt < nat maxR + 1" using lt by simp
  then show ?case
    using IH
    by (simp add: step invocations_append invocations_callback upt_conv_Cons)
qed


lemma retry_loop_bound:
  "length (invocations (snd (retry_loop fn maxR backoff cb lastError d attempt)))
     \<le> nat (maxR + 1 - int attempt)"
proof (induction "nat (maxR + 1 - int attempt)" arbitrary: attempt lastError d)
  case 0
  then have "maxR < int attempt" by simp
  then show ?case by (simp add: retry_loop_done)
next
  case (Suc m)
  then have le: "int attempt \<le> maxR" by simp
  have m: "m = nat (maxR + 1 - int (attempt + 1))" using Suc.hyps(2) by simp
  note IH = Suc.hyps(1) [OF m]
  have S: "nat (maxR + 1 - int attempt) = Suc (nat (maxR - int attempt))" using le by simp
  show ?case
    using le IH [of "as_error (projl (fn attempt))" "d * backoff"] IH [of "as_error (projl (fn attempt))" d]
    by (subst retry_loop.simps)
      (auto simp: Let_def invocations_append invocations_callback S nat_diff_distrib
        split: sum.splits option.splits prod.splits)
qed



lemma checks_append: "checks (xs @ ys) = checks xs @ checks ys"
  by (induction xs rule: checks.induct) simp_all

lemma wait_loop_true_only:
  assumes run: "wait_loop number_text condition elapsed settled timeout poll message i trace = Some y"
  shows "\<forall>b. fst y = Inr b \<longrightarrow>
        b = True \<and> (\<exists>k\<ge>i. condition k = Returns True \<and> int (elapsed k) < timeout \<and>
        (\<forall>j. i \<le> j \<and> j < k \<longrightarrow> condition j \<noteq> Returns True \<and> int (elapsed j) < timeout) \<and>
        checks (snd y) = checks trace @ [i..<k + 1] \<and> last (snd y) = Checked k (settled k))"
proof -
  let ?P = "\<lambda>(number_text :: int \<Rightarrow> string) condition elapsed settled (timeout :: int) (poll :: int)
      (message :: string) i trace (y :: (js_error + bool) \<times> wait_event list).
     \<forall>b. fst y = Inr b \<longrightarrow>
        b = True \<and> (\<exists>k\<ge>i. condition k = Returns True \<and> int (elapsed k) < timeout \<and>
        (\<forall>j. i \<le> j \<and> j < k \<longrightarrow> condition j \<noteq> Returns True \<and> int (elapsed j) < timeout) \<and>
        checks (snd y) = checks trace @ [i..<k + 1] \<and> last (snd y) = Checked k (settled k))"
  have "?P number_text condition elapsed settled timeout poll message i trace y"
  proof (rule wait_loop.raw_induct [where P = ?P, OF _ run])
    fix wait_loop' :: "(int \<Rightarrow> string) \<Rightarrow> (nat \<Rightarrow> condition_result) \<Rightarrow> (nat \<Rightarrow> nat) \<Rightarrow> (nat \<Rightarrow> nat) \<Rightarrow>
       int \<Rightarrow> int \<Rightarrow> string \<Rightarrow> nat \<Rightarrow> wait_event list \<Rightarrow> ((js_error + bool) \<times> wait_event list) option"
    fix number_text condition elapsed settled timeout poll message i trace y
    assume IH: "\<And>number_text condition elapsed settled timeout poll message i trace y.
        wait_loop' number_text condition elapsed settled timeout poll message i trace = Some y \<Longrightarrow>
        ?P number_text condition elapsed settled timeout poll message i trace y"
    assume body: "(if int (elapsed i) < timeout
      then case condition i of
           Returns result \<Rightarrow>
             if result then Some (Inr True, trace @ [Checked i (settled i)])
             else wait_loop' number_text condition elapsed settled timeout poll message
                   (i + 1) (trace @ [Checked i (settled i), Waited poll])
           | Throws \<Rightarrow>
               wait_loop' number_text condition elapsed settled timeout poll message
                (i + 1) (trace @ [Checked i (settled i), Waited poll])
      else Some (Inl (Error (message @ '' (waited '' @ number_text timeout @ ''ms)'')), trace)) =
     Some y"
    show "?P number_text condition elapsed settled timeout poll message i trace y"
    proof (cases "int (elapsed i) < timeout")
      case False
      with body show ?thesis by auto
    next
      case lt: True
      show ?thesis
      proof (cases "condition i = Returns True")
        case True
        with lt body have "y = (Inr True, trace @ [Checked i (settled i)])" by simp
        with True lt show ?thesis by (auto simp: checks_append intro!: exI [of _ i])
      next
        case False
        with lt body have rec: "wait_loop' number_text condition elapsed settled timeout poll message (i + 1)
            (trace @ [Checked i (settled i), Waited poll]) = Some y"
          by (auto split: condition_result.splits if_splits)
        show ?thesis
        proof (intro allI impI)
          fix b assume b: "fst y = Inr b"
          from IH [OF rec] b obtain k where k: "b = True" "i + 1 \<le> k" "condition k = Returns True"
            "int (elapsed k) < timeout"
            "\<forall>j. i + 1 \<le> j \<and> j < k \<longrightarrow> condition j \<noteq> Returns True \<and> int (elapsed j) < timeout"
            "checks (snd y) = checks (trace @ [Checked i (settled i), Waited poll]) @ [i + 1..<k + 1]"
            "last (snd y) = Checked k (settled k)"
            by blast
          have "\<forall>j. i \<le> j \<and> j < k \<longrightarrow> condition j \<noteq> Returns True \<and> int (elapsed j) < timeout"
          proof (intro allI impI)
            fix j assume j: "i \<le> j \<and> j < k"
            show "condition j \<noteq> Returns True \<and> int (elapsed j) < timeout"
            proof (cases "j = i")
              case True
              with False lt show ?thesis by simp
            next
              case False
              with j k(5) show ?thesis by simp
            qed
          qed
          moreover have "checks (snd y) = checks trace @ [i..<k + 1]"
            using k(2,6) by (simp add: checks_append upt_conv_Cons)
          ultimately show "b = True \<and> (\<exists>k\<ge>i. condition k = Returns True \<and> int (elapsed k) < timeout \<and>
            (\<forall>j. i \<le> j \<and> j < k \<longrightarrow> condition j \<noteq> Returns True \<and> int (elapsed j) < timeout) \<and>
            checks (snd y) = checks trace @ [i..<k + 1] \<and> last (snd y) = Checked k (settled k))"
            using k(1-4,7) by (intro conjI exI [of _ k]) simp_all
        qed
      qed
    qed
  qed
  then show ?thesis .
qed

lemma wait_loop_continue:
  "int (elapsed i) < timeout \<Longrightarrow> condition i \<noteq> Returns True \<Longrightarrow>
   wait_loop number_text condition elapsed settled timeout poll message i trace =
   wait_loop number_text condition elapsed settled timeout poll message (i + 1) (trace @ [Checked i (settled i), Waited poll])"
  by (subst wait_loop.simps) (auto split: condition_result.splits)

lemma wait_loop_timeout_now:
  "\<not> int (elapsed i) < timeout \<Longrightarrow>
   wait_loop number_text condition elapsed settled timeout poll message i trace =
   Some (Inl (Error (message @ '' (waited '' @ number_text timeout @ ''ms)'')), trace)"
  by (subst wait_loop.simps) simp

lemma wait_loop_found:
  "int (elapsed i) < timeout \<Longrightarrow> condition i = Returns True \<Longrightarrow>
   wait_loop number_text condition elapsed settled timeout poll message i trace = Some (Inr True, trace @ [Checked i (settled i)])"
  by (subst wait_loop.simps) simp

lemma wait_loop_times_out:
  assumes "\<not> int (elapsed k) < timeout"
    and "\<forall>j. i \<le> j \<and> j < k \<longrightarrow> int (elapsed j) < timeout \<and> condition j \<noteq> Returns True"
    and "i \<le> k"
  shows "\<exists>tr. wait_loop number_text condition elapsed settled timeout poll message i trace =
           Some (Inl (Error (message @ '' (waited '' @ number_text timeout @ ''ms)'')), tr) \<and>
           checks tr = checks trace @ [i..<k]"
  using assms(2,3)
proof (induction "k - i" arbitrary: i trace)
  case 0
  then have "i = k" by simp
  with assms(1) show ?case by (simp add: wait_loop_timeout_now)
next
  case (Suc m)
  then have lt: "i < k" by simp
  with Suc.prems have now: "int (elapsed i) < timeout" "condition i \<noteq> Returns True" by simp_all
  have m: "m = k - (i + 1)" using Suc.hyps(2) by simp
  have rest: "\<forall>j. i + 1 \<le> j \<and> j < k \<longrightarrow> int (elapsed j) < timeout \<and> condition j \<noteq> Returns True"
    using Suc.prems by simp
  have le: "i + 1 \<le> k" using lt by simp
  from Suc.hyps(1) [OF m rest le, of "trace @ [Checked i (settled i), Waited poll]"]
  show ?case
    using lt by (simp add: wait_loop_continue [where elapsed = elapsed and condition = condition and i = i and timeout = timeout, OF now] checks_append upt_conv_Cons)
qed

lemma wait_loop_succeeds:
  assumes "int (elapsed k) < timeout" "condition k = Returns True"
    and "\<forall>j. i \<le> j \<and> j < k \<longrightarrow> int (elapsed j) < timeout \<and> condition j \<noteq> Returns True"
    and "i \<le> k"
  shows "\<exists>tr. wait_loop number_text condition elapsed settled timeout poll message i trace = Some (Inr True, tr) \<and>
           checks tr = checks trace @ [i..<k + 1]"
  using assms(3,4)
proof (induction "k - i" arbitrary: i trace)
  case 0
  then have "i = k" by simp
  with assms(1,2) show ?case by (simp add: wait_loop_found checks_append)
next
  case (Suc m)
  then have lt: "i < k" by simp
  with Suc.prems have now: "int (elapsed i) < timeout" "condition i \<noteq> Returns True" by simp_all
  have m: "m = k - (i + 1)" using Suc.hyps(2) by simp
  have rest: "\<forall>j. i + 1 \<le> j \<and> j < k \<longrightarrow> int (elapsed j) < timeout \<and> condition j \<noteq> Returns True"
    using Suc.prems by simp
  have le: "i + 1 \<le> k" using lt by simp
  from Suc.hyps(1) [OF m rest le, of "trace @ [Checked i (settled i), Waited poll]"]
  show ?case
    using lt by (simp add: wait_loop_continue [where elapsed = elapsed and condition = condition and i = i and timeout = timeout, OF now] checks_append upt_conv_Cons)
qed


section \<open>The claims about the requests of the testing client\<close>

lemma removeRemoteCollection_unconfigured:
  "remoteProjectId d = None \<Longrightarrow> removeRemoteCollection (constructor d) etag = Undefined"
  by (simp add: removeRemoteCollection_def constructor_def)

lemma addItemsToRemoteCollection_unconfigured:
  "remoteProjectId d = None \<Longrightarrow> addItemsToRemoteCollection (constructor d) docs locale = Undefined"
  by (simp add: addItemsToRemoteCollection_def constructor_def)

text \<open>
  C1. Claimed: with no remote project identifier configured, each of
  \<open>getRemoteCollection\<close>, \<open>createRemoteCollection\<close>, \<open>removeRemoteCollection\<close>
  and \<open>addItemsToRemoteCollection\<close> yields \<open>undefined\<close> without a fetch. The
  last two do (the two lemmas above). On a client built without a remote project
  identifier, \<open>getRemoteCollection\<close> and \<open>createRemoteCollection\<close> call
  \<open>fetch\<close> all the same, with \<open>undefined\<close> as the URL.
\<close>

theorem remote_collection_fetches_unconfigured:
  "(let c = constructor \<lparr> caasURL = ''https://caas'', tenantID = ''t'', apikey = ''k'', projectID = ''p'',
                      contentMode = ''preview'', remoteProjectId = None \<rparr>
    in getRemoteCollection c =
         Fetch \<lparr> req_url = None, req_method = GET,
                 req_headers = [(''Authorization'', ''Bearer k''), (''Content-Type'', ''application/json'')],
                 req_body = None \<rparr>
       \<and> createRemoteCollection c =
         Fetch \<lparr> req_url = None, req_method = PUT,
                 req_headers = [(''Authorization'', ''Bearer k''), (''Content-Type'', ''application/json'')],
                 req_body = None \<rparr>)"
  by (simp add: getRemoteCollection_def createRemoteCollection_def constructor_def)

text \<open>
  C2. Every item write addresses the key \<open>identifier.language_country\<close> under the
  collection URL of the project. \<open>addDocToCollection\<close> puts to the base URL
  followed by \<open>/\<close> and the percent-encoded key of the document's \<open>_id\<close> and its
  own locale; \<open>addDocsToCollection\<close> posts to the base URL documents whose
  \<open>_id\<close> is that key; \<open>addItemsToCollection\<close> posts to the base URL documents
  whose \<open>_id\<close> is the key of the item's \<open>identifier\<close> and the locale passed in.
  The documents are as their types say: the identifier, the language and the country
  are strings.
\<close>

theorem item_writes_key_form:
  assumes "get_prop doc ''_id'' = JStr i" "get_prop doc ''locale'' = JObj l"
    "get_prop l ''language'' = JStr lang" "get_prop l ''country'' = JStr co"
  and "list_all2 (\<lambda>d (i, lang, co). get_prop d ''_id'' = JStr i \<and>
             (\<exists>l. get_prop d ''locale'' = JObj l \<and> get_prop l ''language'' = JStr lang \<and>
                  get_prop l ''country'' = JStr co)) docs keys"
  and "list_all2 (\<lambda>d i. get_prop d ''identifier'' = JStr i) items ids"
    "get_prop locale ''language'' = JStr lang'" "get_prop locale ''country'' = JStr co'"
  shows "(\<exists>b. addDocToCollection c doc =
            Fetch \<lparr> req_url = Some (baseUrl c @ ''/'' @ encodeURIComponent (i @ ''.'' @ lang @ ''_'' @ co)),
                    req_method = PUT, req_headers = headers c, req_body = b \<rparr>)
       \<and> (\<exists>ds. addDocsToCollection c docs =
            Fetch \<lparr> req_url = Some (baseUrl c), req_method = POST, req_headers = headers c,
                    req_body = json_body (JArr (map JObj ds)) \<rparr>
            \<and> map (\<lambda>d. get_prop d ''_id'') ds = map (\<lambda>(i, lang, co). JStr (i @ ''.'' @ lang @ ''_'' @ co)) keys)
       \<and> (\<exists>ds. addItemsToCollection c items locale =
            Fetch \<lparr> req_url = Some (baseUrl c), req_method = POST, req_headers = headers c,
                    req_body = json_body (JArr (map JObj ds)) \<rparr>
            \<and> map (\<lambda>d. get_prop d ''_id'') ds = map (\<lambda>i. JStr (i @ ''.'' @ lang' @ ''_'' @ co')) ids)"
proof (intro conjI)
  show "\<exists>b. addDocToCollection c doc =
            Fetch \<lparr> req_url = Some (baseUrl c @ ''/'' @ encodeURIComponent (i @ ''.'' @ lang @ ''_'' @ co)),
                    req_method = PUT, req_headers = headers c, req_body = b \<rparr>"
    using assms(1-4) encodeURIComponent_key [of i lang co]
    by (simp add: addDocToCollection_def Let_def)
next
  from map_docs_keys [OF assms(5)] obtain ds where
    "map_docs docWithLocale_of_doc docs = Inr ds"
    "map (\<lambda>d. get_prop d ''_id'') ds = map (\<lambda>(i, lang, co). JStr (i @ ''.'' @ lang @ ''_'' @ co)) keys"
    by blast
  then show "\<exists>ds. addDocsToCollection c docs =
            Fetch \<lparr> req_url = Some (baseUrl c), req_method = POST, req_headers = headers c,
                    req_body = json_body (JArr (map JObj ds)) \<rparr>
            \<and> map (\<lambda>d. get_prop d ''_id'') ds = map (\<lambda>(i, lang, co). JStr (i @ ''.'' @ lang @ ''_'' @ co)) keys"
    by (auto simp: addDocsToCollection_def)
next
  show "\<exists>ds. addItemsToCollection c items locale =
            Fetch \<lparr> req_url = Some (baseUrl c), req_method = POST, req_headers = headers c,
                    req_body = json_body (JArr (map JObj ds)) \<rparr>
            \<and> map (\<lambda>d. get_prop d ''_id'') ds = map (\<lambda>i. JStr (i @ ''.'' @ lang' @ ''_'' @ co')) ids"
    using items_keys [OF assms(6-8)]
    by (intro exI [of _ "map (docWithLocale_of_item locale) items"])
       (simp add: addItemsToCollection_def addItemsToCollectionWithBaseUrl_def Let_def)
qed


theorem item_writes_key_form_witness:
  "(let c = constructor \<lparr> caasURL = ''https://caas'', tenantID = ''t'', apikey = ''k'', projectID = ''p'',
                      contentMode = ''preview'', remoteProjectId = None \<rparr>;
        de = [(''identifier'', JStr ''de_DE''), (''language'', JStr ''de''), (''country'', JStr ''DE'')]
    in (\<exists>b. addDocToCollection c [(''_id'', JStr ''a b''), (''locale'', JObj de)] =
          Fetch \<lparr> req_url = Some (''https://caas/t/p.preview.content/'' @ encodeURIComponent ''a b.de_DE''),
                  req_method = PUT, req_headers = headers c, req_body = b \<rparr>)
     \<and> (\<exists>ds. addDocsToCollection c [[(''_id'', JStr ''x''), (''locale'', JObj de)]] =
          Fetch \<lparr> req_url = Some ''https://caas/t/p.preview.content'', req_method = POST,
                  req_headers = headers c, req_body = json_body (JArr (map JObj ds)) \<rparr>
          \<and> map (\<lambda>d. get_prop d ''_id'') ds = [JStr ''x.de_DE''])
     \<and> (\<exists>ds. addItemsToCollection c [[(''identifier'', JStr ''y'')]] de =
          Fetch \<lparr> req_url = Some ''https://caas/t/p.preview.content'', req_method = POST,
                  req_headers = headers c, req_body = json_body (JArr (map JObj ds)) \<rparr>
          \<and> map (\<lambda>d. get_prop d ''_id'') ds = [JStr ''y.de_DE'']))"
proof -
  let ?c = "constructor \<lparr> caasURL = ''https://caas'', tenantID = ''t'', apikey = ''k'', projectID = ''p'',
                      contentMode = ''preview'', remoteProjectId = None \<rparr>"
  let ?de = "[(''identifier'', JStr ''de_DE''), (''language'', JStr ''de''), (''country'', JStr ''DE'')]"
  let ?doc = "[(''_id'', JStr ''a b''), (''locale'', JObj ?de)]"
  have doc: "get_prop ?doc ''_id'' = JStr ''a b''" "get_prop ?doc ''locale'' = JObj ?de"
    "get_prop ?de ''language'' = JStr ''de''" "get_prop ?de ''country'' = JStr ''DE''"
    by (simp_all add: get_prop_def)
  have docs: "list_all2 (\<lambda>d (i, lang, co). get_prop d ''_id'' = JStr i \<and>
             (\<exists>l. get_prop d ''locale'' = JObj l \<and> get_prop l ''language'' = JStr lang \<and>
                  get_prop l ''country'' = JStr co))
          [[(''_id'', JStr ''x''), (''locale'', JObj ?de)]] [(''x'', ''de'', ''DE'')]"
    by (simp add: get_prop_def)
  have items: "list_all2 (\<lambda>d i. get_prop d ''identifier'' = JStr i) [[(''identifier'', JStr ''y'')]] [''y'']"
    by (simp add: get_prop_def)
  show ?thesis
    using item_writes_key_form [OF doc docs items doc(3,4), of ?c]
    by (simp add: constructor_def)
qed

text \<open>
  C3. When every document's \<open>_id\<close> equals its \<open>identifier\<close> and its
  \<open>locale\<close> is the locale passed in, \<open>addDocsToCollection\<close> and
  \<open>addItemsToCollection\<close> issue the same request, a POST to the base URL with the
  same headers and body. Without the precondition they differ on some input.
\<close>

theorem bulk_paths_same_request:
  "((\<forall>d\<in>set docs. get_prop d ''_id'' = get_prop d ''identifier'' \<and> get_prop d ''locale'' = JObj locale)
     \<longrightarrow> addDocsToCollection c docs = addItemsToCollection c docs locale
         \<and> (\<exists>b. addItemsToCollection c docs locale =
               Fetch \<lparr> req_url = Some (baseUrl c), req_method = POST, req_headers = headers c, req_body = b \<rparr>))
   \<and> (\<exists>docs' locale'.
         \<not> (\<forall>d\<in>set docs'. get_prop d ''_id'' = get_prop d ''identifier'' \<and> get_prop d ''locale'' = JObj locale')
         \<and> addDocsToCollection c docs' \<noteq> addItemsToCollection c docs' locale')"
proof (intro conjI impI)
  assume a: "\<forall>d\<in>set docs. get_prop d ''_id'' = get_prop d ''identifier'' \<and> get_prop d ''locale'' = JObj locale"
  show "addDocsToCollection c docs = addItemsToCollection c docs locale"
    by (simp add: addDocsToCollection_def addItemsToCollection_def addItemsToCollectionWithBaseUrl_def
        map_docs_same [OF a] Let_def)
  show "\<exists>b. addItemsToCollection c docs locale =
               Fetch \<lparr> req_url = Some (baseUrl c), req_method = POST, req_headers = headers c, req_body = b \<rparr>"
    by (simp add: addItemsToCollection_def addItemsToCollectionWithBaseUrl_def Let_def)
next
  let ?L = "[(''language'', JStr ''de''), (''country'', JStr ''DE'')]"
  let ?d = "[(''_id'', JStr ''a''), (''identifier'', JStr ''b''), (''locale'', JObj ?L)]"
  have "\<not> (\<forall>d\<in>set [?d]. get_prop d ''_id'' = get_prop d ''identifier'' \<and> get_prop d ''locale'' = JObj ?L)"
    by (simp add: get_prop_def)
  moreover have "addDocsToCollection c [?d] \<noteq> addItemsToCollection c [?d] ?L"
    by (simp add: addDocsToCollection_def addItemsToCollection_def addItemsToCollectionWithBaseUrl_def
        docWithLocale_of_doc_def docWithLocale_of_item_def get_prop_def json_body_def Let_def
        QuoteJSONString_def QuoteJSONChar_def)
  ultimately show "\<exists>docs' locale'.
         \<not> (\<forall>d\<in>set docs'. get_prop d ''_id'' = get_prop d ''identifier'' \<and> get_prop d ''locale'' = JObj locale')
         \<and> addDocsToCollection c docs' \<noteq> addItemsToCollection c docs' locale'"
    by blast
qed


theorem bulk_paths_same_request_witness:
  "(let c = constructor \<lparr> caasURL = ''https://caas'', tenantID = ''t'', apikey = ''k'', projectID = ''p'',
                      contentMode = ''preview'', remoteProjectId = None \<rparr>;
        de = [(''identifier'', JStr ''de_DE''), (''language'', JStr ''de''), (''country'', JStr ''DE'')];
        docs = [[(''_id'', JStr ''a''), (''identifier'', JStr ''a''), (''locale'', JObj de)]]
    in addDocsToCollection c docs = addItemsToCollection c docs de)"
proof -
  let ?c = "constructor \<lparr> caasURL = ''https://caas'', tenantID = ''t'', apikey = ''k'', projectID = ''p'',
                      contentMode = ''preview'', remoteProjectId = None \<rparr>"
  let ?de = "[(''identifier'', JStr ''de_DE''), (''language'', JStr ''de''), (''country'', JStr ''DE'')]"
  let ?docs = "[[(''_id'', JStr ''a''), (''identifier'', JStr ''a''), (''locale'', JObj ?de)]]"
  have "\<forall>d\<in>set ?docs. get_prop d ''_id'' = get_prop d ''identifier'' \<and> get_prop d ''locale'' = JObj ?de"
    by (simp add: get_prop_def)
  with bulk_paths_same_request [of ?docs ?de ?c]
  have "addDocsToCollection ?c ?docs = addItemsToCollection ?c ?docs ?de" by blast
  then show ?thesis by simp
qed

text \<open>
  C4, as stated: the remote base location is defined if and only if a remote project
  identifier was supplied. It fails for the empty string, which is supplied and is
  falsy.
\<close>

theorem base_locations_counterexample:
  "\<not> (remoteBaseUrl (constructor \<lparr> caasURL = ''https://caas'', tenantID = ''t'', apikey = ''k'',
                                      projectID = ''p'', contentMode = ''preview'',
                                      remoteProjectId = Some '''' \<rparr>) \<noteq> None
        \<longleftrightarrow> remoteProjectId \<lparr> caasURL = ''https://caas'', tenantID = ''t'', apikey = ''k'',
                               projectID = ''p'', contentMode = ''preview'',
                               remoteProjectId = Some '''' \<rparr> \<noteq> None)"
  by (simp add: constructor_def)

text \<open>
  C4, amended. The base location is \<open>caasURL/tenantID/projectID.contentMode.content\<close>,
  a function of these four inputs alone; the remote base location is defined if and
  only if a non-empty remote project identifier was supplied, and is then the same
  derivation with that identifier in place of the project identifier.
\<close>

theorem base_locations_amended:
  "baseUrl (constructor d) =
     caasURL d @ ''/'' @ tenantID d @ ''/'' @ projectID d @ ''.'' @ contentMode d @ ''.content''
   \<and> (remoteBaseUrl (constructor d) \<noteq> None \<longleftrightarrow> (\<exists>r. remoteProjectId d = Some r \<and> r \<noteq> []))
   \<and> (\<forall>r. remoteProjectId d = Some r \<and> r \<noteq> [] \<longrightarrow>
          remoteBaseUrl (constructor d) = Some (baseUrl (constructor (d\<lparr>projectID := r\<rparr>))))"
  by (simp add: constructor_def Let_def split: option.splits)

theorem base_locations_amended_witness:
  "(let d = \<lparr> caasURL = ''https://caas'', tenantID = ''t'', apikey = ''k'', projectID = ''p'',
                      contentMode = ''preview'', remoteProjectId = Some ''rp'' \<rparr>
    in baseUrl (constructor d) = ''https://caas/t/p.preview.content''
       \<and> remoteBaseUrl (constructor d) = Some ''https://caas/t/rp.preview.content'')"
  using base_locations_amended [of "\<lparr> caasURL = ''https://caas'', tenantID = ''t'', apikey = ''k'', projectID = ''p'', contentMode = ''preview'', remoteProjectId = Some ''rp'' \<rparr>"]
  by (simp add: constructor_def)




section \<open>The claims about retrying and polling\<close>

text \<open>
  C8, as stated: when all \<open>n\<close> invocations throw, \<open>retryAsync\<close> throws the error of
  the final invocation. It fails when what the final invocation throws is not an
  instance of \<open>Error\<close>: the string \<open>boom\<close> is thrown, a new \<open>Error\<close> with
  message \<open>boom\<close> comes out. And a value that a later invocation would return is not
  returned when \<open>onRetry\<close> throws before: what \<open>onRetry\<close> throws comes out.
\<close>

theorem retryAsync_counterexample:
  "fst (retryAsync (\<lambda>k. Inl (ThrownValue (JStr ''boom'')) :: thrown + unit)
         \<lparr> maxRetries = Some 1, delayMs = None, backoffMultiplier = None, onRetry = None \<rparr>)
     = Inl (ThrownError (Error ''boom''))
   \<and> fst (retryAsync (\<lambda>k. if k = 1 then Inl (ThrownError (Error ''first'')) else Inr (7 :: int))
         \<lparr> maxRetries = Some 3, delayMs = None, backoffMultiplier = None,
           onRetry = Some (\<lambda>e k. Some (ThrownError (Error ''callback''))) \<rparr>)
     = Inl (ThrownError (Error ''callback''))"
proof
  show "fst (retryAsync (\<lambda>k. Inl (ThrownValue (JStr ''boom'')) :: thrown + unit)
         \<lparr> maxRetries = Some 1, delayMs = None, backoffMultiplier = None, onRetry = None \<rparr>)
     = Inl (ThrownError (Error ''boom''))"
    by (simp add: retryAsync_def retry_loop_last)
  show "fst (retryAsync (\<lambda>k. if k = 1 then Inl (ThrownError (Error ''first'')) else Inr (7 :: int))
         \<lparr> maxRetries = Some 3, delayMs = None, backoffMultiplier = None,
           onRetry = Some (\<lambda>e k. Some (ThrownError (Error ''callback''))) \<rparr>)
     = Inl (ThrownError (Error ''callback''))"
    by (simp add: retryAsync_def call_onRetry_def retry_loop.simps [of _ _ _ _ _ _ "Suc 0"])
qed

text \<open>
  C8, amended. For \<open>maxRetries = n \<ge> 1\<close>, \<open>retryAsync\<close> invokes \<open>fn\<close> at most
  \<open>n\<close> times. When \<open>onRetry\<close> is absent or returns normally: it returns the value of
  the first invocation that does not throw, after invoking \<open>fn\<close> that many times; if
  all \<open>n\<close> invocations throw, it throws what the final one threw when that is an
  instance of \<open>Error\<close>, and otherwise a new \<open>Error\<close> whose message is the string
  conversion of what was thrown. For \<open>n \<le> 0\<close> it never invokes \<open>fn\<close> and throws
  an \<open>Error\<close> with message \<open>No attempts made\<close>.
\<close>

theorem retryAsync_amended:
  assumes "maxRetries options = Some n"
  shows "(1 \<le> n \<longrightarrow> length (invocations (snd (retryAsync fn options))) \<le> nat n)
   \<and> (1 \<le> n \<and> (\<forall>e k. call_onRetry (onRetry options) e k = None) \<longrightarrow>
        (\<forall>k v. 1 \<le> k \<and> int k \<le> n \<and> fn k = Inr v \<and> (\<forall>j. 1 \<le> j \<and> j < k \<longrightarrow> (\<exists>e. fn j = Inl e)) \<longrightarrow>
           fst (retryAsync fn options) = Inr v \<and>
           invocations (snd (retryAsync fn options)) = [1..<k + 1])
      \<and> ((\<forall>j. 1 \<le> j \<and> int j \<le> n \<longrightarrow> (\<exists>e. fn j = Inl e)) \<longrightarrow>
           (\<exists>e. fn (nat n) = Inl e \<and> fst (retryAsync fn options) = Inl (ThrownError (as_error e))) \<and>
           invocations (snd (retryAsync fn options)) = [1..<nat n + 1]))
   \<and> (n \<le> 0 \<longrightarrow> retryAsync fn options = (Inl (ThrownError (Error ''No attempts made'')), []))"
proof (intro conjI impI allI)
  assume "1 \<le> n"
  show "length (invocations (snd (retryAsync fn options))) \<le> nat n"
    using retry_loop_bound [of fn n _ "onRetry options" _ _ 1] assms
    by (simp add: retryAsync_def Let_def)
next
  fix k v
  assume ok: "1 \<le> n \<and> (\<forall>e k. call_onRetry (onRetry options) e k = None)"
    and k: "1 \<le> k \<and> int k \<le> n \<and> fn k = Inr v \<and> (\<forall>j. 1 \<le> j \<and> j < k \<longrightarrow> (\<exists>e. fn j = Inl e))"
  have "fst (retryAsync fn options) = Inr v \<and>
        invocations (snd (retryAsync fn options)) = [1..<k + 1]"
    unfolding retryAsync_def Let_def using assms ok k
    by (simp add: retry_loop_first_success [where k = k and v = v])
  then show "fst (retryAsync fn options) = Inr v"
    and "invocations (snd (retryAsync fn options)) = [1..<k + 1]" by simp_all
next
  assume ok: "1 \<le> n \<and> (\<forall>e k. call_onRetry (onRetry options) e k = None)"
    and all: "\<forall>j. 1 \<le> j \<and> int j \<le> n \<longrightarrow> (\<exists>e. fn j = Inl e)"
  have "1 \<le> nat n \<and> int (nat n) \<le> n" using ok by auto
  with all obtain e where e: "fn (nat n) = Inl e" by blast
  have r: "fst (retryAsync fn options) = Inl (ThrownError (as_error e)) \<and>
        invocations (snd (retryAsync fn options)) = [1..<nat n + 1]"
    unfolding retryAsync_def Let_def using assms ok all e
    by (simp add: retry_loop_all_throw [where e = e])
  then show "\<exists>e. fn (nat n) = Inl e \<and> fst (retryAsync fn options) = Inl (ThrownError (as_error e))"
    using e by blast
  from r show "invocations (snd (retryAsync fn options)) = [1..<nat n + 1]" by simp
next
  assume "n \<le> 0"
  then show "retryAsync fn options = (Inl (ThrownError (Error ''No attempts made'')), [])"
    using assms by (simp add: retryAsync_def Let_def retry_loop_done)
qed

theorem retryAsync_amended_witness:
  "fst (retryAsync (\<lambda>k. if k < 3 then Inl (ThrownValue (JStr ''boom'')) else Inr (7 :: int))
         \<lparr> maxRetries = Some 3, delayMs = None, backoffMultiplier = None, onRetry = None \<rparr>) = Inr 7
   \<and> invocations (snd (retryAsync (\<lambda>k. if k < 3 then Inl (ThrownValue (JStr ''boom'')) else Inr (7 :: int))
         \<lparr> maxRetries = Some 3, delayMs = None, backoffMultiplier = None, onRetry = None \<rparr>)) = [1, 2, 3]"
proof -
  let ?fn = "\<lambda>k :: nat. if k < 3 then Inl (ThrownValue (JStr ''boom'')) else Inr (7 :: int)"
  let ?o = "\<lparr> maxRetries = Some 3, delayMs = None, backoffMultiplier = None, onRetry = None \<rparr>"
  have m: "maxRetries ?o = Some 3" by simp
  have ok: "(1 :: int) \<le> 3 \<and> (\<forall>e k. call_onRetry (onRetry ?o) e k = None)"
    by (simp add: call_onRetry_def)
  have k: "1 \<le> (3 :: nat) \<and> int 3 \<le> 3 \<and> ?fn (3 :: nat) = Inr 7 \<and>
           (\<forall>j :: nat. 1 \<le> j \<and> j < 3 \<longrightarrow> (\<exists>e. ?fn j = Inl e))"
    by simp
  from retryAsync_amended [OF m, of ?fn] ok k
  have "fst (retryAsync ?fn ?o) = Inr 7 \<and> invocations (snd (retryAsync ?fn ?o)) = [1..<3 + 1]"
    by blast
  moreover have "[1..<3 + 1] = [1, 2, 3 :: nat]" by (simp add: upt_rec)
  ultimately show ?thesis by simp
qed

text \<open>
  C9, as stated: \<open>waitUntilPreconditionMet\<close> returns \<open>true\<close> only if the
  condition returned a truthy value before \<open>timeoutMs\<close> elapsed. It fails for a slow
  condition: the clock is read at the loop test only, so with a timeout of 100 ms a call
  of the condition that starts at 0 ms and settles truthy at 1000 ms makes it return
  \<open>true\<close>, at 1000 ms.
\<close>

theorem waitUntilPreconditionMet_counterexample:
  "waitUntilPreconditionMet decimal (\<lambda>i. Returns True) (\<lambda>i. 0) (\<lambda>i. 1000)
       \<lparr> timeoutMs = Some 100, pollIntervalMs = None, errorMessage = None \<rparr>
     = Some (Inr True, [Checked 0 1000])
   \<and> \<not> (1000 :: int) < 100"
  by (simp add: waitUntilPreconditionMet_def wait_loop_found)

text \<open>
  C9, amended. With \<open>timeoutMs = t\<close> and \<open>errorMessage = m\<close> configured:
  \<open>waitUntilPreconditionMet\<close> returns nothing but \<open>true\<close>, and only when a call
  of the condition was truthy in a round whose loop test found less than \<open>t\<close>
  elapsed, which is the last thing it did (when that call settled is not looked at);
  rounds in which the condition throws or is falsy are followed by the next round, so
  the first truthy call of a round that began in time makes it return \<open>true\<close>; when
  a loop test finds \<open>t\<close> elapsed with no truthy call before, it throws an
  \<open>Error\<close> whose message is \<open>m\<close> followed by the time waited; and for
  \<open>t \<le> 0\<close> it throws without calling the condition.
\<close>

theorem waitUntilPreconditionMet_amended:
  assumes "timeoutMs options = Some t" "errorMessage options = Some m"
  shows "(\<forall>b tr. waitUntilPreconditionMet number_text condition elapsed settled options = Some (Inr b, tr) \<longrightarrow>
            b \<and> (\<exists>k. condition k = Returns True \<and> int (elapsed k) < t \<and> checks tr = [0..<k + 1] \<and>
                     last tr = Checked k (settled k)))
   \<and> (\<forall>k. (\<forall>j<k. int (elapsed j) < t \<and> condition j \<noteq> Returns True) \<and>
            int (elapsed k) < t \<and> condition k = Returns True \<longrightarrow>
          (\<exists>tr. waitUntilPreconditionMet number_text condition elapsed settled options = Some (Inr True, tr) \<and>
                checks tr = [0..<k + 1]))
   \<and> (\<forall>k. (\<forall>j<k. int (elapsed j) < t \<and> condition j \<noteq> Returns True) \<and> \<not> int (elapsed k) < t \<longrightarrow>
          (\<exists>tr. waitUntilPreconditionMet number_text condition elapsed settled options =
                  Some (Inl (Error (m @ '' (waited '' @ number_text t @ ''ms)'')), tr) \<and>
                checks tr = [0..<k]))
   \<and> (t \<le> 0 \<longrightarrow>
          waitUntilPreconditionMet number_text condition elapsed settled options =
            Some (Inl (Error (m @ '' (waited '' @ number_text t @ ''ms)'')), []))"
proof (intro conjI allI impI)
  fix b tr
  assume run: "waitUntilPreconditionMet number_text condition elapsed settled options = Some (Inr b, tr)"
  then have "wait_loop number_text condition elapsed settled t
      (case pollIntervalMs options of None \<Rightarrow> 500 | Some n \<Rightarrow> n) m 0 [] = Some (Inr b, tr)"
    using assms by (simp add: waitUntilPreconditionMet_def Let_def)
  from wait_loop_true_only [OF this]
  have "b = True \<and> (\<exists>k\<ge>0. condition k = Returns True \<and> int (elapsed k) < t \<and>
        (\<forall>j. 0 \<le> j \<and> j < k \<longrightarrow> condition j \<noteq> Returns True \<and> int (elapsed j) < t) \<and>
        checks tr = checks [] @ [0..<k + 1] \<and> last tr = Checked k (settled k))"
    by simp
  then show "b" and "\<exists>k. condition k = Returns True \<and> int (elapsed k) < t \<and> checks tr = [0..<k + 1] \<and>
                     last tr = Checked k (settled k)"
    by auto
next
  fix k
  assume "(\<forall>j<k. int (elapsed j) < t \<and> condition j \<noteq> Returns True) \<and>
            int (elapsed k) < t \<and> condition k = Returns True"
  then have "\<exists>tr. wait_loop number_text condition elapsed settled t
      (case pollIntervalMs options of None \<Rightarrow> 500 | Some n \<Rightarrow> n) m 0 []
      = Some (Inr True, tr) \<and> checks tr = checks [] @ [0..<k + 1]"
    by (intro wait_loop_succeeds) simp_all
  then show "\<exists>tr. waitUntilPreconditionMet number_text condition elapsed settled options = Some (Inr True, tr) \<and>
                checks tr = [0..<k + 1]"
    using assms by (simp add: waitUntilPreconditionMet_def Let_def)
next
  fix k
  assume "(\<forall>j<k. int (elapsed j) < t \<and> condition j \<noteq> Returns True) \<and> \<not> int (elapsed k) < t"
  then have "\<exists>tr. wait_loop number_text condition elapsed settled t
      (case pollIntervalMs options of None \<Rightarrow> 500 | Some n \<Rightarrow> n) m 0 []
      = Some (Inl (Error (m @ '' (waited '' @ number_text t @ ''ms)'')), tr) \<and>
         checks tr = checks [] @ [0..<k]"
    by (intro wait_loop_times_out) simp_all
  then show "\<exists>tr. waitUntilPreconditionMet number_text condition elapsed settled options =
                  Some (Inl (Error (m @ '' (waited '' @ number_text t @ ''ms)'')), tr) \<and>
                checks tr = [0..<k]"
    using assms by (simp add: waitUntilPreconditionMet_def Let_def)
next
  assume "t \<le> 0"
  then have "\<not> int (elapsed 0) < t" by simp
  then show "waitUntilPreconditionMet number_text condition elapsed settled options =
            Some (Inl (Error (m @ '' (waited '' @ number_text t @ ''ms)'')), [])"
    using assms by (simp add: waitUntilPreconditionMet_def Let_def wait_loop_timeout_now)
qed

theorem waitUntilPreconditionMet_amended_witness:
  "(\<exists>tr. waitUntilPreconditionMet decimal (\<lambda>i. if i < 2 then Throws else Returns True)
            (\<lambda>i. 10 * i) (\<lambda>i. 10 * i + 5)
            \<lparr> timeoutMs = Some 100, pollIntervalMs = None, errorMessage = Some ''not yet'' \<rparr>
          = Some (Inr True, tr) \<and> checks tr = [0, 1, 2])
   \<and> waitUntilPreconditionMet decimal (\<lambda>i. Returns True) (\<lambda>i. 10 * i) (\<lambda>i. 10 * i + 5)
            \<lparr> timeoutMs = Some 0, pollIntervalMs = None, errorMessage = Some ''not yet'' \<rparr>
          = Some (Inl (Error ''not yet (waited 0ms)''), [])"
proof -
  let ?c = "\<lambda>i :: nat. if i < 2 then Throws else Returns True"
  let ?e = "\<lambda>i :: nat. 10 * i"
  let ?s = "\<lambda>i :: nat. 10 * i + 5"
  let ?o = "\<lparr> timeoutMs = Some 100, pollIntervalMs = None, errorMessage = Some ''not yet'' \<rparr>"
  let ?z = "\<lparr> timeoutMs = Some 0, pollIntervalMs = None, errorMessage = Some ''not yet'' \<rparr>"
  have k1: "\<forall>j<(2 :: nat). int (?e j) < 100" by simp
  have k2: "\<forall>j<(2 :: nat). ?c j \<noteq> Returns True" by simp
  have k3: "int (?e 2) < 100" by simp
  have k4: "?c 2 = Returns True" by simp
  from k1 k2 k3 k4
  have k: "(\<forall>j<(2 :: nat). int (?e j) < 100 \<and> ?c j \<noteq> Returns True) \<and> int (?e 2) < 100 \<and> ?c 2 = Returns True"
    by blast
  have t: "timeoutMs ?o = Some 100" by simp
  have m: "errorMessage ?o = Some ''not yet''" by simp
  from waitUntilPreconditionMet_amended [OF t m, of decimal ?c ?e ?s] k
  have "\<exists>tr. waitUntilPreconditionMet decimal ?c ?e ?s ?o = Some (Inr True, tr) \<and> checks tr = [0..<2 + 1]"
    by blast
  moreover have "[0..<2 + 1] = [0, 1, 2 :: nat]" by (simp add: upt_rec)
  moreover
  have tz: "timeoutMs ?z = Some 0" by simp
  have mz: "errorMessage ?z = Some ''not yet''" by simp
  from waitUntilPreconditionMet_amended [OF tz mz, of decimal "\<lambda>i. Returns True" ?e ?s]
  have "waitUntilPreconditionMet decimal (\<lambda>i. Returns True) ?e ?s ?z
          = Some (Inl (Error (''not yet'' @ '' (waited '' @ decimal 0 @ ''ms)'')), [])"
    by simp
  moreover have "decimal 0 = ''0''"
    by (simp add: decimal_def show_nat.simps)
  ultimately show ?thesis by simp
qed

section \<open>The claim about the query translator\<close>

lemma translate_well_formed:
  shows "well_formed t \<Longrightarrow> \<exists>n. translateFilter t = Inr n"
    and "list_all well_formed ts \<Longrightarrow>
      \<exists>ns. translateChildren ts = Inr ns \<and> map translateFilter ts = map Inr ns"
proof (induction t and ts rule: translateFilter_translateChildren.induct)
  case (1 field operator v)
  then show ?case by (auto split: operator.splits)
next
  case (2 field operator vs)
  then show ?case by (auto split: operator.splits)
next
  case (3 operator children)
  then show ?case by auto
next
  case 4
  then show ?case by simp
next
  case (5 child children)
  then show ?case by auto
qed

text \<open>
  C5. On a well-formed tree \<open>translateFilter\<close> yields exactly one native filter
  document (it is a function of the tree, and it does not fail), and the document of a
  Logical node is the composite of its operator over the documents of its children, in
  the order of the children.
\<close>

theorem translateFilter_order_preserving:
  assumes "well_formed t"
  shows "(\<exists>!n. translateFilter t = Inr n)
       \<and> (\<forall>operator children. t = Logical operator children \<longrightarrow>
            (\<exists>ns. translateFilter t = Inr (Composite operator ns) \<and>
                  map translateFilter children = map Inr ns))"
proof
  from assms translate_well_formed(1) [of t] obtain n where "translateFilter t = Inr n" by auto
  then show "\<exists>!n. translateFilter t = Inr n" by auto
next
  show "\<forall>operator children. t = Logical operator children \<longrightarrow>
            (\<exists>ns. translateFilter t = Inr (Composite operator ns) \<and>
                  map translateFilter children = map Inr ns)"
  proof (intro allI impI)
    fix operator children
    assume t: "t = Logical operator children"
    with assms have "list_all well_formed children" by simp
    with translate_well_formed(2) [of children] obtain ns where
      ns: "translateChildren children = Inr ns" "map translateFilter children = map Inr ns"
      by auto
    from assms t have "\<not> (operator = LogicalNot \<and> 1 < length children)" by simp
    with t ns show "\<exists>ns. translateFilter t = Inr (Composite operator ns) \<and>
                  map translateFilter children = map Inr ns"
      by auto
  qed
qed

theorem translateFilter_order_preserving_witness:
  "translateFilter (Logical LogicalAnd
       [Comparison ''title'' (ComparisonOperator Equals) ''Home'',
        Comparison ''author'' (ComparisonOperator NotEquals) ''nobody'']) =
     Inr (Composite LogicalAnd
       [Keyed ''title'' (ComparisonOperator Equals) (Single ''Home''),
        Keyed ''author'' (ComparisonOperator NotEquals) (Single ''nobody'')])"
proof -
  let ?t = "Logical LogicalAnd
       [Comparison ''title'' (ComparisonOperator Equals) ''Home'',
        Comparison ''author'' (ComparisonOperator NotEquals) ''nobody'']"
  have wf: "well_formed ?t" by simp
  from translateFilter_order_preserving [OF wf]
  obtain ns where "translateFilter ?t = Inr (Composite LogicalAnd ns)"
    "map translateFilter [Comparison ''title'' (ComparisonOperator Equals) ''Home'',
        Comparison ''author'' (ComparisonOperator NotEquals) ''nobody''] = map Inr ns"
    by blast
  then show ?thesis by auto
qed

section \<open>The claim about the reference resolver\<close>

lemma memo_ok_fetches [simp]: "memo_ok (memo \<lparr> fetches := f \<rparr>) = memo_ok memo"
  by (simp add: memo_ok_def resolved_keys_def)

lemma resolved_keys_fetches [simp]: "resolved_keys (memo \<lparr> fetches := f \<rparr>) = resolved_keys memo"
  by (simp add: resolved_keys_def)

lemma resolved_keys_add [simp]:
  "resolved_keys (memo \<lparr> resolved := (i, m) # resolved memo \<rparr>) = insert i (resolved_keys memo)"
  by (simp add: resolved_keys_def)














end
